theory Spec2Isabelle
  imports Main "HOL-Library.Word"
begin

section \<open>Python strings\<close>

text \<open>
  A Python \<open>str\<close> is a sequence of code points. This development covers the code points
  U+0000 .. U+00FF (Latin-1): a \<^typ>\<open>char\<close> is one code point, \<open>of_char c\<close> its number, and a
  \<^typ>\<open>string\<close> is a \<open>str\<close> made of such code points. The three character tables below are
  the ones CPython's \<open>str.isspace\<close>, \<open>str.isalnum\<close> and \<open>str.lower\<close> use on that range;
  \<open>str.lower\<close> maps the range into itself, one code point to one code point.
\<close>

definition char_isspace :: "char \<Rightarrow> bool" where
  "char_isspace c =
     (let n = (of_char c :: nat)
      in (9 \<le> n \<and> n \<le> 13) \<or> (28 \<le> n \<and> n \<le> 32) \<or> n = 133 \<or> n = 160)"

definition char_isalnum :: "char \<Rightarrow> bool" where
  "char_isalnum c =
     (let n = (of_char c :: nat)
      in (48 \<le> n \<and> n \<le> 57) \<or> (65 \<le> n \<and> n \<le> 90) \<or> (97 \<le> n \<and> n \<le> 122) \<or>
         n = 170 \<or> n = 178 \<or> n = 179 \<or> n = 181 \<or> n = 185 \<or> n = 186 \<or>
         (188 \<le> n \<and> n \<le> 190) \<or> (192 \<le> n \<and> n \<le> 214) \<or>
         (216 \<le> n \<and> n \<le> 246) \<or> (248 \<le> n \<and> n \<le> 255))"

definition char_lower :: "char \<Rightarrow> char" where
  "char_lower c =
     (let n = (of_char c :: nat)
      in if (65 \<le> n \<and> n \<le> 90) \<or> (192 \<le> n \<and> n \<le> 214) \<or> (216 \<le> n \<and> n \<le> 222)
         then char_of (n + 32) else c)"

text \<open>\<open>s.lower()\<close>\<close>

definition str_lower :: "string \<Rightarrow> string" where
  "str_lower s = map char_lower s"

text \<open>
  \<open>s.split()\<close>: the maximal runs of non-whitespace characters, left to right; leading,
  trailing and repeated whitespace produce no empty segment.
\<close>

function str_split :: "string \<Rightarrow> string list" where
  "str_split [] = []"
| "str_split (c # cs) =
     (if char_isspace c then str_split cs
      else (c # takeWhile (\<lambda>x. \<not> char_isspace x) cs)
             # str_split (dropWhile (\<lambda>x. \<not> char_isspace x) cs))"
  by pat_completeness auto
termination
  by (relation "measure length") (auto simp: less_Suc_eq_le length_dropWhile_le)

text \<open>
  \<open>s.split(sep)\<close> for a one-character separator: cut at every occurrence of \<open>sep\<close>, keeping
  empty segments. The result always has at least one element.
\<close>

function str_split_on :: "char \<Rightarrow> string \<Rightarrow> string list" where
  "str_split_on sep s =
     (case dropWhile (\<lambda>x. x \<noteq> sep) s of
        [] \<Rightarrow> [s]
      | _ # rest \<Rightarrow> takeWhile (\<lambda>x. x \<noteq> sep) s # str_split_on sep rest)"
  by pat_completeness auto
termination
proof (relation "measure (\<lambda>(sep, s). length s)")
  show "wf (measure (\<lambda>(sep, s). length s))" by simp
next
  fix sep :: char and s :: string and x rest
  assume "dropWhile (\<lambda>x. x \<noteq> sep) s = x # rest"
  then have "length (dropWhile (\<lambda>x. x \<noteq> sep) s) = Suc (length rest)" by simp
  moreover have "length (dropWhile (\<lambda>x. x \<noteq> sep) s) \<le> length s"
    by (rule length_dropWhile_le)
  ultimately show "((sep, rest), (sep, s)) \<in> measure (\<lambda>(sep, s). length s)" by simp
qed

declare str_split_on.simps [simp del]

text \<open>\<open>s.strip()\<close>: remove leading and trailing whitespace.\<close>

definition str_strip :: "string \<Rightarrow> string" where
  "str_strip s = rev (dropWhile char_isspace (rev (dropWhile char_isspace s)))"

text \<open>\<open>sep.join(ws)\<close>\<close>

fun str_join :: "string \<Rightarrow> string list \<Rightarrow> string" where
  "str_join sep [] = []"
| "str_join sep [w] = w"
| "str_join sep (w # ws) = w @ sep @ str_join sep ws"

text \<open>
  \<open>enumerate(xs)\<close>, counting from \<open>n\<close>: Python pairs the index first, the element second.
\<close>

fun enumerate_from :: "int \<Rightarrow> 'a list \<Rightarrow> (int \<times> 'a) list" where
  "enumerate_from n [] = []"
| "enumerate_from n (x # xs) = (n, x) # enumerate_from (n + 1) xs"

section \<open>The tokenizer\<close>

text \<open>
  \<^verbatim>\<open>cleaned = ''.join(ch if ch.isalnum() or ch.isspace() else ' ' for ch in text.lower())\<close>
\<close>

definition cleaned :: "string \<Rightarrow> string" where
  "cleaned text =
     map (\<lambda>ch. if char_isalnum ch \<or> char_isspace ch then ch else CHR '' '') (str_lower text)"

text \<open>\<^verbatim>\<open>return [w for w in cleaned.split() if w]\<close>\<close>

definition tokenize :: "string \<Rightarrow> string list" where
  "tokenize text = filter (\<lambda>w. w \<noteq> []) (str_split (cleaned text))"

text \<open>
  The character class of the specification: \<open>[a-z0-9]\<close>, and the words that match
  \<open>^[a-z0-9]+$\<close> as a whole, one or more characters of the class and nothing else.
\<close>

definition in_az09 :: "char \<Rightarrow> bool" where
  "in_az09 c = (let n = (of_char c :: nat) in (97 \<le> n \<and> n \<le> 122) \<or> (48 \<le> n \<and> n \<le> 57))"

definition matches_az09_plus :: "string \<Rightarrow> bool" where
  "matches_az09_plus w = (w \<noteq> [] \<and> list_all in_az09 w)"

definition is_ascii :: "string \<Rightarrow> bool" where
  "is_ascii s = list_all (\<lambda>c. (of_char c :: nat) < 128) s"

section \<open>Exceptions, the host environment and external calls\<close>

text \<open>
  The exceptions the external operations raise. Every class listed is a subclass of Python's
  \<open>Exception\<close>, so an \<open>except Exception\<close> clause catches each of them; \<open>str(e)\<close> is the
  message.
\<close>

datatype exn_class =
  FileNotFoundError | PermissionError | OSError | RuntimeError | ImportError | APIError | ValueError

datatype exn = Error (class_of: exn_class) (str_exn: string)

text \<open>
  The outcome of \<open>subprocess.run\<close>: the process was launched and completed with a return
  code and an error stream, or launching it raised.
\<close>

datatype proc_result = Completed int string | LaunchError exn

text \<open>
  What \<open>client.audio.transcriptions.create\<close> returns: an object whose \<open>text\<close> attribute is
  the given value (\<open>None\<close> when the attribute is missing or \<open>None\<close>), or a \<open>dict\<close> with the
  given \<open>"text"\<close> entry (\<open>None\<close> when the key is missing). Text values are strings, as the
  client library declares them.
\<close>

datatype transcription = Obj "string option" | Dict "string option"

type_synonym bytes = "8 word list"

text \<open>
  Everything outside the process that a request depends on: the environment variables, the
  search path, the file system, the external tool and the remote service. Each field is the
  result the corresponding call gives (\<open>None\<close> in an \<open>exn option\<close> is success).
\<close>

record world =
  os_getenv :: "string \<Rightarrow> string option"
  shutil_which :: "string \<Rightarrow> string option"
  tempdir_create :: "exn + string"
  file_open_wb :: "string \<Rightarrow> exn option"
  file_write :: "string \<Rightarrow> bytes \<Rightarrow> exn option"
  subprocess_run :: "string list \<Rightarrow> proc_result"
  openai_import :: "exn option"
  openai_client :: "string \<Rightarrow> exn option"
  file_open_rb :: "string \<Rightarrow> exn option"
  transcriptions_create :: "string \<Rightarrow> string \<Rightarrow> exn + transcription"

text \<open>The external calls a run makes, in order.\<close>

datatype event =
  MakeTempDir
  | RemoveTempDir string
  | OpenFile string
  | WriteFile string
  | RunProcess "string list"
  | RemoteCall string

text \<open>
  A computation that may raise: the external calls it made, and the exception raised (\<open>Inl\<close>)
  or the value returned (\<open>Inr\<close>).
\<close>

type_synonym 'a io = "event list \<times> (exn + 'a)"

definition ret :: "'a \<Rightarrow> 'a io" where
  "ret x = ([], Inr x)"

definition raise :: "exn \<Rightarrow> 'a io" where
  "raise e = ([], Inl e)"

definition bind :: "'a io \<Rightarrow> ('a \<Rightarrow> 'b io) \<Rightarrow> 'b io" where
  "bind m f =
     (case m of
        (t, Inl e) \<Rightarrow> (t, Inl e)
      | (t, Inr x) \<Rightarrow> (case f x of (t', r) \<Rightarrow> (t @ t', r)))"

text \<open>\<open>try: m  except Exception as e: h e\<close>\<close>

definition try_except :: "'a io \<Rightarrow> (exn \<Rightarrow> 'a io) \<Rightarrow> 'a io" where
  "try_except m h =
     (case m of
        (t, Inl e) \<Rightarrow> (case h e of (t', r) \<Rightarrow> (t @ t', r))
      | (t, Inr x) \<Rightarrow> (t, Inr x))"

definition call_run :: "world \<Rightarrow> string list \<Rightarrow> (int \<times> string) io" where
  "call_run w cmd =
     ([RunProcess cmd],
      case subprocess_run w cmd of
        Completed rc err \<Rightarrow> Inr (rc, err)
      | LaunchError e \<Rightarrow> Inl e)"

definition call_open_rb :: "world \<Rightarrow> string \<Rightarrow> unit io" where
  "call_open_rb w path =
     ([OpenFile path], case file_open_rb w path of Some e \<Rightarrow> Inl e | None \<Rightarrow> Inr ())"

definition call_create :: "world \<Rightarrow> string \<Rightarrow> string \<Rightarrow> transcription io" where
  "call_create w model_name path = ([RemoteCall model_name], transcriptions_create w model_name path)"

definition call_import :: "world \<Rightarrow> unit io" where
  "call_import w = ([], case openai_import w of Some e \<Rightarrow> Inl e | None \<Rightarrow> Inr ())"

definition call_client :: "world \<Rightarrow> string \<Rightarrow> unit io" where
  "call_client w api_key = ([], case openai_client w api_key of Some e \<Rightarrow> Inl e | None \<Rightarrow> Inr ())"

section \<open>The external tool\<close>

definition ALLOWED_EXTENSIONS :: "string set" where
  "ALLOWED_EXTENSIONS = {''mp4'', ''mov'', ''mkv'', ''webm'', ''mp3'', ''wav'', ''m4a''}"

text \<open>
  \<^verbatim>\<open>custom = os.getenv("FFMPEG_PATH")\<close>
  \<^verbatim>\<open>return custom.strip() if custom else "ffmpeg"\<close>
  (\<open>custom\<close> is falsy when it is \<open>None\<close> or the empty string).
\<close>

definition get_ffmpeg_executable :: "world \<Rightarrow> string" where
  "get_ffmpeg_executable w =
     (case os_getenv w ''FFMPEG_PATH'' of
        None \<Rightarrow> ''ffmpeg''
      | Some custom \<Rightarrow> if custom \<noteq> [] then str_strip custom else ''ffmpeg'')"

text \<open>
  \<open>_has_ffmpeg\<close>: run \<open>[exe, "-version"]\<close> with \<open>check=False\<close>; \<open>True\<close> when the call returns,
  \<open>False\<close> when it raises \<open>FileNotFoundError\<close>; any other exception is not caught.
\<close>

definition has_ffmpeg :: "world \<Rightarrow> bool io" where
  "has_ffmpeg w =
     (let exe = get_ffmpeg_executable w
      in case call_run w [exe, ''-version''] of
           (t, Inr _) \<Rightarrow> (t, Inr True)
         | (t, Inl e) \<Rightarrow> if class_of e = FileNotFoundError then (t, Inr False) else (t, Inl e))"

definition ffmpeg_not_found :: string where
  "ffmpeg_not_found =
     ''ffmpeg not found. Install it or set FFMPEG_PATH to full executable path (e.g. C:/ffmpeg/bin/ffmpeg.exe).''"

definition extract_audio :: "world \<Rightarrow> string \<Rightarrow> string \<Rightarrow> unit io" where
  "extract_audio w input_path output_path =
     (let exe = get_ffmpeg_executable w
      in bind (has_ffmpeg w) (\<lambda>found.
           if \<not> found then raise (Error RuntimeError ffmpeg_not_found)
           else
             let cmd = [exe, ''-y'', ''-i'', input_path, ''-vn'', ''-acodec'', ''pcm_s16le'',
                        ''-ar'', ''16000'', ''-ac'', ''1'', output_path]
             in bind (call_run w cmd) (\<lambda>(returncode, stderr).
                  if returncode \<noteq> 0
                  then raise (Error RuntimeError
                         (''ffmpeg failed (cmd: '' @ exe @ ''): '' @ take 500 stderr))
                  else ret ())))"

section \<open>Transcription\<close>

definition placeholder_text :: string where
  "placeholder_text = ''hello world this is a sample transcription for sign translation demo''"

definition unavailable_text :: string where
  "unavailable_text = ''transcription unavailable (OpenAI models not reachable)''"

text \<open>Python truthiness of an optional string: neither \<open>None\<close> nor empty.\<close>

definition truthy :: "string option \<Rightarrow> bool" where
  "truthy v = (case v of None \<Rightarrow> False | Some s \<Rightarrow> s \<noteq> [])"

text \<open>\<open>getattr(transcription, "text", None)\<close>, \<open>isinstance(transcription, dict)\<close> and
  \<open>transcription.get("text")\<close>.\<close>

fun getattr_text :: "transcription \<Rightarrow> string option" where
  "getattr_text (Obj t) = t"
| "getattr_text (Dict t) = None"

fun is_dict :: "transcription \<Rightarrow> bool" where
  "is_dict (Obj t) = False"
| "is_dict (Dict t) = True"

fun dict_get_text :: "transcription \<Rightarrow> string option" where
  "dict_get_text (Obj t) = None"
| "dict_get_text (Dict t) = t"

text \<open>
  The body of the inner \<open>try\<close>, for one model name: \<open>Some text\<close> when it reaches
  \<open>return text\<close>, \<open>None\<close> when it falls through to the next iteration.
\<close>

definition attempt :: "world \<Rightarrow> string \<Rightarrow> string \<Rightarrow> string option io" where
  "attempt w audio_path model_name =
     bind (call_open_rb w audio_path) (\<lambda>_.
     bind (call_create w model_name audio_path) (\<lambda>transcription.
       let text = getattr_text transcription;
           text = (if \<not> truthy text \<and> is_dict transcription
                   then dict_get_text transcription else text)
       in if truthy text then ret text else ret None))"

text \<open>
  The loop over the model names; \<open>except Exception: continue\<close> sends a failed attempt to the
  next name, and the line after the loop returns the fixed string.
\<close>

fun try_models :: "world \<Rightarrow> string \<Rightarrow> string list \<Rightarrow> string io" where
  "try_models w audio_path [] = ret unavailable_text"
| "try_models w audio_path (model_name # rest) =
     (case attempt w audio_path model_name of
        (t, Inr (Some text)) \<Rightarrow> (t, Inr text)
      | (t, _) \<Rightarrow> (case try_models w audio_path rest of (t', r) \<Rightarrow> (t @ t', r)))"

definition transcribe_audio :: "world \<Rightarrow> string \<Rightarrow> string io" where
  "transcribe_audio w audio_path =
     (let api_key = os_getenv w ''OPENAI_API_KEY''
      in if truthy api_key then
           try_except
             (bind (call_import w) (\<lambda>_.
              bind (call_client w (case api_key of Some k \<Rightarrow> k | None \<Rightarrow> [])) (\<lambda>_.
              try_models w audio_path [''gpt-4o-transcribe'', ''whisper-1''])))
             (\<lambda>e. ret (take 500 (''transcription error: '' @ str_exn e)))
         else ret placeholder_text)"

section \<open>The request handlers\<close>

record upload =
  filename :: "string option"
  content :: bytes

record word_entry =
  entry_w :: string
  entry_i :: int

record body =
  body_text :: string
  body_words :: "word_entry list"

text \<open>
  How a call of the handler ends: it returns the JSON response, it raises an
  \<open>HTTPException\<close> with a status code and a detail, or another exception leaves it uncaught.
\<close>

datatype outcome = JSONResponse body | HTTPException nat string | Unhandled exn

text \<open>
  The body of the \<open>with tempfile.TemporaryDirectory() as td\<close> block: \<open>Inr text\<close> when it
  completes, \<open>Inl\<close> the way the handler ends when an exception leaves the block. Opening
  \<open>temp_in\<close> and writing to it are outside the \<open>try\<close>; only \<open>extract_audio\<close> and
  \<open>transcribe_audio\<close> are inside, and \<open>except Exception as e\<close> turns what they raise into
  \<open>HTTPException(status_code=500, detail=str(e))\<close>. Reading the upload
  (\<open>await file.read()\<close>) gives \<open>content file\<close>; paths are joined with \<open>/\<close>.
\<close>

definition with_body :: "world \<Rightarrow> upload \<Rightarrow> string \<Rightarrow> string \<Rightarrow> event list \<times> (outcome + string)" where
  "with_body w file td suffix =
     (let temp_in = td @ ''/input.'' @ suffix
      in case file_open_wb w temp_in of
           Some e \<Rightarrow> ([OpenFile temp_in], Inl (Unhandled e))
         | None \<Rightarrow>
            (case file_write w temp_in (content file) of
               Some e \<Rightarrow> ([OpenFile temp_in, WriteFile temp_in], Inl (Unhandled e))
             | None \<Rightarrow>
                (let audio_out = td @ ''/audio.wav''
                 in case bind (extract_audio w temp_in audio_out)
                           (\<lambda>_. transcribe_audio w audio_out) of
                      (t, Inl e) \<Rightarrow>
                        ([OpenFile temp_in, WriteFile temp_in] @ t,
                         Inl (HTTPException 500 (str_exn e)))
                    | (t, Inr text) \<Rightarrow> ([OpenFile temp_in, WriteFile temp_in] @ t, Inr text))))"

definition words_array :: "string list \<Rightarrow> word_entry list" where
  "words_array words = map (\<lambda>(i, w). \<lparr>entry_w = w, entry_i = i\<rparr>) (enumerate_from 0 words)"

text \<open>
  \<^verbatim>\<open>filename = file.filename or "upload"\<close> and
  \<^verbatim>\<open>suffix = filename.split('.')[-1].lower()\<close>; the split of a string is never empty, so
  the index \<open>[-1]\<close> is its last element.
\<close>

definition upload_name :: "upload \<Rightarrow> string" where
  "upload_name file =
     (case filename file of None \<Rightarrow> ''upload'' | Some n \<Rightarrow> if n \<noteq> [] then n else ''upload'')"

definition suffix_of :: "upload \<Rightarrow> string" where
  "suffix_of file = str_lower (last (str_split_on (CHR ''.'') (upload_name file)))"

text \<open>
  The handler of \<open>POST /api/transcribe\<close>. The extension check comes first and raises the
  400 before anything else happens. Creating the temporary directory is outside every
  \<open>try\<close>; leaving the \<open>with\<close> block, normally or by an exception, removes the directory.
  Tokenizing and building the response follow the block.
\<close>

definition transcribe :: "world \<Rightarrow> upload \<Rightarrow> event list \<times> outcome" where
  "transcribe w file =
     (let suffix = suffix_of file
      in if suffix \<notin> ALLOWED_EXTENSIONS then ([], HTTPException 400 ''Unsupported file type'')
         else
           case tempdir_create w of
             Inl e \<Rightarrow> ([MakeTempDir], Unhandled e)
           | Inr td \<Rightarrow>
              (case with_body w file td suffix of
                 (t, Inl raised) \<Rightarrow> (MakeTempDir # t @ [RemoveTempDir td], raised)
               | (t, Inr text) \<Rightarrow>
                   (let words = tokenize text
                    in (MakeTempDir # t @ [RemoveTempDir td],
                        JSONResponse \<lparr>body_text = text, body_words = words_array words\<rparr>))))"

record ffmpeg_config =
  configured :: string
  resolved :: "string option"
  available :: bool

definition api_config :: "world \<Rightarrow> ffmpeg_config io" where
  "api_config w =
     (let exe = get_ffmpeg_executable w;
          resolved = (if exe \<noteq> [] then shutil_which w exe else None)
      in bind (has_ffmpeg w) (\<lambda>a. ret \<lparr>configured = exe, resolved = resolved, available = a\<rparr>))"

section \<open>A reading of the validation rule, and sample environments\<close>

text \<open>
  The longest suffix of a name that contains no \<open>.\<close>: what follows the last \<open>.\<close> of the
  name, and the whole name when it contains none.
\<close>

definition last_segment :: "string \<Rightarrow> string" where
  "last_segment fname = rev (takeWhile (\<lambda>c. c \<noteq> CHR ''.'') (rev fname))"

text \<open>
  The extension of a file name as the specification words it: the lower-cased substring
  after the last \<open>.\<close> of the name; a name without a \<open>.\<close> has none.
\<close>

definition extension_after_last_dot :: "string \<Rightarrow> string option" where
  "extension_after_last_dot fname =
     (if CHR ''.'' \<in> set fname then Some (str_lower (last_segment fname)) else None)"

text \<open>
  A host where everything works: no environment variable is set, the tool runs and exits
  with status 0, the file system accepts every operation, and the remote service answers.
\<close>

definition demo_world :: world where
  "demo_world =
     \<lparr>os_getenv = (\<lambda>_. None),
      shutil_which = (\<lambda>_. Some ''/usr/bin/ffmpeg''),
      tempdir_create = Inr ''/tmp/tmpq1w2'',
      file_open_wb = (\<lambda>_. None),
      file_write = (\<lambda>_ _. None),
      subprocess_run = (\<lambda>_. Completed 0 []),
      openai_import = None,
      openai_client = (\<lambda>_. None),
      file_open_rb = (\<lambda>_. None),
      transcriptions_create = (\<lambda>_ _. Inr (Obj (Some ''Good morning.'')))\<rparr>"

definition demo_upload :: upload where
  "demo_upload = \<lparr>filename = Some ''sample.wav'', content = []\<rparr>"

section \<open>Facts about the string operations\<close>

lemma of_char_lower:
  "(of_char (char_lower c) :: nat) =
     (let n = of_char c
      in if (65 \<le> n \<and> n \<le> 90) \<or> (192 \<le> n \<and> n \<le> 214) \<or> (216 \<le> n \<and> n \<le> 222)
         then n + 32 else n)"
  by (auto simp add: char_lower_def Let_def)

lemma char_lower_idem: "char_lower (char_lower c) = char_lower c"
  by (simp add: char_lower_def Let_def)

lemma char_lower_fixed:
  "char_lower c = c \<Longrightarrow>
     \<not> ((65 \<le> (of_char c :: nat) \<and> (of_char c :: nat) \<le> 90) \<or>
        (192 \<le> (of_char c :: nat) \<and> (of_char c :: nat) \<le> 214) \<or>
        (216 \<le> (of_char c :: nat) \<and> (of_char c :: nat) \<le> 222))"
proof
  assume fx: "char_lower c = c" and up: "(65 \<le> (of_char c :: nat) \<and> (of_char c :: nat) \<le> 90) \<or>
        (192 \<le> (of_char c :: nat) \<and> (of_char c :: nat) \<le> 214) \<or>
        (216 \<le> (of_char c :: nat) \<and> (of_char c :: nat) \<le> 222)"
  from up have "(of_char (char_lower c) :: nat) = of_char c + 32"
    by (simp add: of_char_lower Let_def)
  with fx show False by simp
qed

lemma ascii_lower_alnum_az09:
  assumes "char_isalnum c" and "char_lower c = c" and "(of_char c :: nat) < 128"
  shows "in_az09 c"
  using assms(1,3) char_lower_fixed[OF assms(2)]
  by (auto simp add: char_isalnum_def in_az09_def Let_def)

lemma char_lower_ascii: "(of_char (char_lower c) :: nat) < 128 \<longleftrightarrow> (of_char c :: nat) < 128"
  by (auto simp add: of_char_lower Let_def)

lemma char_lower_isalnum: "char_isalnum (char_lower c) = char_isalnum c"
  unfolding char_isalnum_def of_char_lower Let_def by auto

lemma space_isspace: "char_isspace (CHR '' '')"
  by (simp add: char_isspace_def)

lemma str_split_word_append:
  assumes "w \<noteq> []" and "\<forall>c \<in> set w. \<not> char_isspace c"
    and "rest = [] \<or> char_isspace (hd rest)"
  shows "str_split (w @ rest) = w # str_split rest"
proof -
  obtain c cs where w: "w = c # cs" using assms(1) by (cases w) auto
  have nsp: "\<forall>x \<in> set cs. \<not> char_isspace x" and c: "\<not> char_isspace c"
    using assms(2) w by auto
  have tk: "takeWhile (\<lambda>x. \<not> char_isspace x) (cs @ rest) = cs"
    using nsp assms(3) by (cases rest) (auto simp: takeWhile_append2)
  have dr: "dropWhile (\<lambda>x. \<not> char_isspace x) (cs @ rest) = rest"
    using nsp assms(3) by (cases rest) (auto simp: dropWhile_append2)
  show ?thesis using c tk dr by (simp add: w)
qed

lemma str_split_join:
  "\<forall>w \<in> set ws. w \<noteq> [] \<and> (\<forall>c \<in> set w. \<not> char_isspace c) \<Longrightarrow>
   str_split (str_join '' '' ws) = ws"
proof (induction ws)
  case Nil
  then show ?case by simp
next
  case (Cons w ws)
  have w: "w \<noteq> []" "\<forall>c \<in> set w. \<not> char_isspace c" using Cons.prems by auto
  show ?case
  proof (cases ws)
    case Nil
    then show ?thesis using str_split_word_append[OF w, of "[]"] by simp
  next
    case (Cons v vs)
    have "str_split (w @ ('' '' @ str_join '' '' ws)) = w # str_split ('' '' @ str_join '' '' ws)"
      by (rule str_split_word_append[OF w]) (simp add: space_isspace)
    also have "str_split ('' '' @ str_join '' '' ws) = str_split (str_join '' '' ws)"
      by (simp add: space_isspace)
    also have "\<dots> = ws" using Cons.IH Cons.prems by simp
    finally show ?thesis using Cons by simp
  qed
qed

lemma str_split_segments:
  "w \<in> set (str_split s) \<Longrightarrow> w \<noteq> [] \<and> set w \<subseteq> set s \<and> (\<forall>c \<in> set w. \<not> char_isspace c)"
proof (induction s arbitrary: w rule: str_split.induct)
  case 1
  then show ?case by simp
next
  case (2 c cs)
  show ?case
  proof (cases "char_isspace c")
    case True
    then have "w \<in> set (str_split cs)" using "2.prems" by simp
    from "2.IH"(1)[OF True this] show ?thesis by auto
  next
    case False
    then consider (hd) "w = c # takeWhile (\<lambda>x. \<not> char_isspace x) cs"
      | (tl) "w \<in> set (str_split (dropWhile (\<lambda>x. \<not> char_isspace x) cs))"
      using "2.prems" by auto
    then show ?thesis
    proof cases
      case hd
      have "set (takeWhile (\<lambda>x. \<not> char_isspace x) cs) \<subseteq> set cs"
        by (rule set_takeWhileD[THEN conjunct1, THEN subsetI]) 
      moreover have "\<forall>x \<in> set (takeWhile (\<lambda>x. \<not> char_isspace x) cs). \<not> char_isspace x"
        by (blast dest: set_takeWhileD)
      ultimately show ?thesis using hd False by auto
    next
      case tl
      from "2.IH"(2)[OF False tl]
      have "w \<noteq> []" and "set w \<subseteq> set (dropWhile (\<lambda>x. \<not> char_isspace x) cs)"
        and "\<forall>c \<in> set w. \<not> char_isspace c" by simp_all
      moreover have "set (dropWhile (\<lambda>x. \<not> char_isspace x) cs) \<subseteq> set cs"
        by (rule set_dropWhileD[THEN subsetI])
      ultimately show ?thesis by auto
    qed
  qed
qed

section \<open>Facts about the tokenizer\<close>

lemma cleaned_chars:
  assumes "c \<in> set (cleaned text)" and "\<not> char_isspace c"
  shows "char_isalnum c \<and> char_lower c = c \<and> (\<exists>d \<in> set text. c = char_lower d)"
proof -
  from assms(1) obtain d where d: "d \<in> set text"
    and c: "c = (if char_isalnum (char_lower d) \<or> char_isspace (char_lower d) then char_lower d else CHR '' '')"
    by (auto simp: cleaned_def str_lower_def)
  show ?thesis
  proof (cases "char_isalnum (char_lower d) \<or> char_isspace (char_lower d)")
    case True
    then have "c = char_lower d" using c by simp
    then show ?thesis using True assms(2) d by (auto simp: char_lower_idem)
  next
    case False
    then have "c = CHR '' ''" using c by simp
    then show ?thesis using assms(2) by (simp add: space_isspace)
  qed
qed

lemma tokenize_eq_split: "tokenize text = str_split (cleaned text)"
  unfolding tokenize_def by (rule filter_True) (auto dest: str_split_segments)

lemma tokenize_token:
  assumes "w \<in> set (tokenize text)"
  shows "w \<noteq> []" and "\<And>c. c \<in> set w \<Longrightarrow> \<not> char_isspace c \<and> char_isalnum c \<and> char_lower c = c"
    and "\<And>c. c \<in> set w \<Longrightarrow> \<exists>d \<in> set text. c = char_lower d"
proof -
  have seg: "w \<noteq> [] \<and> set w \<subseteq> set (cleaned text) \<and> (\<forall>c \<in> set w. \<not> char_isspace c)"
    using assms str_split_segments by (simp add: tokenize_eq_split)
  show "w \<noteq> []" using seg by simp
  show "\<not> char_isspace c \<and> char_isalnum c \<and> char_lower c = c" if "c \<in> set w" for c
    using seg that cleaned_chars[of c "text"] by auto
  show "\<exists>d \<in> set text. c = char_lower d" if "c \<in> set w" for c
    using seg that cleaned_chars[of c "text"] by auto
qed

lemma cleaned_fixed:
  assumes "\<forall>c \<in> set s. (char_isalnum c \<or> char_isspace c) \<and> char_lower c = c"
  shows "cleaned s = s"
proof -
  have "str_lower s = s" unfolding str_lower_def using assms by (simp add: map_idI)
  then show ?thesis unfolding cleaned_def using assms by (simp add: map_idI)
qed

lemma set_str_join: "set (str_join sep ws) \<subseteq> set sep \<union> \<Union> (set ` set ws)"
  by (induction sep ws rule: str_join.induct) auto

section \<open>Claims about the tokenizer\<close>

text \<open>
  C3, as amended. For every input text the number of tokens equals the number of
  whitespace-separated segments of the cleaned text, and every token is non-empty and made
  only of characters that \<open>str.isalnum\<close> accepts, that are not whitespace and that
  \<open>str.lower\<close> leaves unchanged (so no punctuation and no letter that has a lower-case
  form). When the input text is ASCII, every token matches \<open>^[a-z0-9]+$\<close>.
\<close>

theorem tokenize_tokens:
  "length (tokenize text) = length (str_split (cleaned text)) \<and>
   list_all (\<lambda>w. w \<noteq> [] \<and> list_all (\<lambda>c. char_isalnum c \<and> \<not> char_isspace c \<and> char_lower c = c) w)
     (tokenize text) \<and>
   (is_ascii text \<longrightarrow> list_all matches_az09_plus (tokenize text))"
proof (intro conjI impI)
  show "length (tokenize text) = length (str_split (cleaned text))"
    by (simp add: tokenize_eq_split)
  show "list_all (\<lambda>w. w \<noteq> [] \<and> list_all (\<lambda>c. char_isalnum c \<and> \<not> char_isspace c \<and> char_lower c = c) w)
     (tokenize text)"
    unfolding list_all_iff using tokenize_token by blast
  assume ascii: "is_ascii text"
  show "list_all matches_az09_plus (tokenize text)"
    unfolding list_all_iff matches_az09_plus_def
  proof (intro ballI conjI)
    fix w assume w: "w \<in> set (tokenize text)"
    show "w \<noteq> []" using tokenize_token(1)[OF w] .
    fix c assume c: "c \<in> set w"
    from tokenize_token(3)[OF w c] obtain d where "d \<in> set text" "c = char_lower d" by blast
    then have "(of_char c :: nat) < 128"
      using ascii by (simp add: is_ascii_def list_all_iff char_lower_ascii)
    then show "in_az09 c"
      using tokenize_token(2)[OF w c] ascii_lower_alnum_az09 by blast
  qed
qed

text \<open>
  C3, witness: an ASCII text with upper-case letters, punctuation and digits.
\<close>

theorem tokenize_tokens_witness:
  "is_ascii ''Hello, World 42!'' \<and> tokenize ''Hello, World 42!'' = [''hello'', ''world'', ''42''] \<and>
   list_all matches_az09_plus (tokenize ''Hello, World 42!'')"
proof -
  have h: "is_ascii ''Hello, World 42!''" by code_simp
  have t: "tokenize ''Hello, World 42!'' = [''hello'', ''world'', ''42'']" by code_simp
  show ?thesis using h t tokenize_tokens[of "''Hello, World 42!''"] by blast
qed

text \<open>
  C3, as stated, fails: \<open>str.isalnum\<close> accepts letters outside \<open>[a-z0-9]\<close>. The text
  made of \<open>C\<close>, \<open>a\<close>, \<open>f\<close> and U+00C9 (capital E with acute accent) gives a single
  token whose last character U+00E9 is alphanumeric and lower-case but not in the class
  \<open>[a-z0-9]\<close>.
\<close>

theorem tokenize_class_counterexample:
  "tokenize [CHR ''C'', CHR ''a'', CHR ''f'', CHR 0xC9] = [[CHR ''c'', CHR ''a'', CHR ''f'', CHR 0xE9]] \<and>
   \<not> list_all matches_az09_plus (tokenize [CHR ''C'', CHR ''a'', CHR ''f'', CHR 0xC9])"
  by code_simp

text \<open>
  C8. Tokenizer idempotence: for every input text, tokenizing the tokens joined with single
  spaces gives the same token sequence.
\<close>

theorem tokenize_idempotent:
  "tokenize (str_join '' '' (tokenize text)) = tokenize text"
proof -
  let ?ws = "tokenize text"
  have good: "\<forall>w \<in> set ?ws. w \<noteq> [] \<and> (\<forall>c \<in> set w. \<not> char_isspace c)"
    using tokenize_token by blast
  have "\<forall>c \<in> set (str_join '' '' ?ws). (char_isalnum c \<or> char_isspace c) \<and> char_lower c = c"
  proof
    fix c assume "c \<in> set (str_join '' '' ?ws)"
    then consider "c = CHR '' ''" | w where "w \<in> set ?ws" "c \<in> set w"
      using set_str_join[of "'' ''" ?ws] by auto
    then show "(char_isalnum c \<or> char_isspace c) \<and> char_lower c = c"
    proof cases
      case 1
      then show ?thesis by (simp add: space_isspace char_lower_def)
    next
      case 2
      then show ?thesis using tokenize_token(2) by blast
    qed
  qed
  then have "cleaned (str_join '' '' ?ws) = str_join '' '' ?ws" by (rule cleaned_fixed)
  then have "tokenize (str_join '' '' ?ws) = str_split (str_join '' '' ?ws)"
    by (simp add: tokenize_eq_split)
  also have "\<dots> = ?ws" using good by (rule str_split_join)
  finally show ?thesis .
qed

text \<open>
  C8, at a concrete text: the tokens, their join, and the tokens of the join.
\<close>

theorem tokenize_idempotent_witness:
  "tokenize ''Hello,  World!'' = [''hello'', ''world''] \<and>
   str_join '' '' (tokenize ''Hello,  World!'') = ''hello world'' \<and>
   tokenize (str_join '' '' (tokenize ''Hello,  World!'')) = tokenize ''Hello,  World!''"
proof -
  have "tokenize ''Hello,  World!'' = [''hello'', ''world'']" by code_simp
  then show ?thesis using tokenize_idempotent[of "''Hello,  World!''"] by simp
qed

section \<open>The tool name\<close>

text \<open>
  C4. \<open>get_ffmpeg_executable\<close> is to return the default name \<open>"ffmpeg"\<close> whenever
  \<open>FFMPEG_PATH\<close> is unset or blank, and the configured override otherwise. The code strips
  the value only after testing it for emptiness: with \<open>FFMPEG_PATH\<close> set to two spaces, a
  blank value, it returns the empty string and not the default, whereas with the variable
  unset or set to the empty string it does return \<open>"ffmpeg"\<close>.
\<close>

theorem get_ffmpeg_executable_blank:
  "os_getenv (demo_world\<lparr>os_getenv := [''FFMPEG_PATH'' \<mapsto> ''  '']\<rparr>) ''FFMPEG_PATH'' = Some ''  '' \<and>
   list_all char_isspace ''  '' \<and>
   get_ffmpeg_executable (demo_world\<lparr>os_getenv := [''FFMPEG_PATH'' \<mapsto> ''  '']\<rparr>) = [] \<and>
   get_ffmpeg_executable (demo_world\<lparr>os_getenv := [''FFMPEG_PATH'' \<mapsto> ''  '']\<rparr>) \<noteq> ''ffmpeg'' \<and>
   get_ffmpeg_executable (demo_world\<lparr>os_getenv := [''FFMPEG_PATH'' \<mapsto> []]\<rparr>) = ''ffmpeg'' \<and>
   get_ffmpeg_executable demo_world = ''ffmpeg''"
  by (simp add: get_ffmpeg_executable_def str_strip_def char_isspace_def demo_world_def)

section \<open>The availability probe\<close>

lemma has_ffmpeg_cases:
  "has_ffmpeg w =
     ([RunProcess [get_ffmpeg_executable w, ''-version'']],
      case subprocess_run w [get_ffmpeg_executable w, ''-version''] of
        Completed rc err \<Rightarrow> Inr True
      | LaunchError e \<Rightarrow> if class_of e = FileNotFoundError then Inr False else Inl e)"
  by (simp add: has_ffmpeg_def call_run_def Let_def split: proc_result.splits)

text \<open>
  C10. The probe returns \<open>True\<close> exactly when the version query was launched, whatever its
  return code, and returns \<open>False\<close> exactly when launching it raised \<open>FileNotFoundError\<close>;
  the \<open>available\<close> flag of \<open>api_config\<close> is the probe's result.
\<close>

theorem has_ffmpeg_launched:
  "(snd (has_ffmpeg w) = Inr True \<longleftrightarrow>
      (\<exists>rc err. subprocess_run w [get_ffmpeg_executable w, ''-version''] = Completed rc err)) \<and>
   (snd (has_ffmpeg w) = Inr False \<longleftrightarrow>
      (\<exists>msg. subprocess_run w [get_ffmpeg_executable w, ''-version'']
               = LaunchError (Error FileNotFoundError msg))) \<and>
   (\<forall>c. snd (api_config w) = Inr c \<longrightarrow> snd (has_ffmpeg w) = Inr (available c))"
proof (intro conjI allI impI)
  show "snd (has_ffmpeg w) = Inr True \<longleftrightarrow>
      (\<exists>rc err. subprocess_run w [get_ffmpeg_executable w, ''-version''] = Completed rc err)"
    by (auto simp: has_ffmpeg_cases split: proc_result.splits)
  show "snd (has_ffmpeg w) = Inr False \<longleftrightarrow>
      (\<exists>msg. subprocess_run w [get_ffmpeg_executable w, ''-version'']
               = LaunchError (Error FileNotFoundError msg))"
  proof (cases "subprocess_run w [get_ffmpeg_executable w, ''-version'']")
    case (Completed rc err)
    then show ?thesis by (simp add: has_ffmpeg_cases)
  next
    case (LaunchError e)
    then show ?thesis by (cases e) (auto simp: has_ffmpeg_cases)
  qed
  fix c assume "snd (api_config w) = Inr c"
  then show "snd (has_ffmpeg w) = Inr (available c)"
    by (cases "has_ffmpeg w")
       (auto simp: api_config_def bind_def ret_def Let_def split: sum.splits prod.splits)
qed

text \<open>
  C10, witnesses: a tool that starts and exits with status 1 is reported available; a
  launch that raises \<open>FileNotFoundError\<close> is reported unavailable.
\<close>

theorem has_ffmpeg_launched_witness:
  "subprocess_run (demo_world\<lparr>subprocess_run := (\<lambda>_. Completed 1 ''unknown option'')\<rparr>)
       [get_ffmpeg_executable (demo_world\<lparr>subprocess_run := (\<lambda>_. Completed 1 ''unknown option'')\<rparr>),
        ''-version'']
     = Completed 1 ''unknown option'' \<and>
   snd (has_ffmpeg (demo_world\<lparr>subprocess_run := (\<lambda>_. Completed 1 ''unknown option'')\<rparr>)) = Inr True \<and>
   snd (has_ffmpeg (demo_world\<lparr>subprocess_run :=
          (\<lambda>_. LaunchError (Error FileNotFoundError ''No such file or directory''))\<rparr>)) = Inr False"
proof -
  let ?w1 = "demo_world\<lparr>subprocess_run := (\<lambda>_. Completed 1 ''unknown option'')\<rparr>"
  let ?w2 = "demo_world\<lparr>subprocess_run :=
          (\<lambda>_. LaunchError (Error FileNotFoundError ''No such file or directory''))\<rparr>"
  have r1: "subprocess_run ?w1 [get_ffmpeg_executable ?w1, ''-version''] = Completed 1 ''unknown option''"
    by simp
  have r2: "subprocess_run ?w2 [get_ffmpeg_executable ?w2, ''-version'']
      = LaunchError (Error FileNotFoundError ''No such file or directory'')"
    by simp
  from has_ffmpeg_launched[of ?w1] r1 have "snd (has_ffmpeg ?w1) = Inr True" by blast
  moreover from has_ffmpeg_launched[of ?w2] r2 have "snd (has_ffmpeg ?w2) = Inr False" by blast
  ultimately show ?thesis using r1 by simp
qed

section \<open>Transcription\<close>


lemma transcribe_audio_no_key:
  "\<not> truthy (os_getenv w ''OPENAI_API_KEY'') \<Longrightarrow>
   transcribe_audio w audio_path = ([], Inr placeholder_text)"
  by (simp add: transcribe_audio_def ret_def)


lemma transcribe_audio_setup_fails:
  assumes "os_getenv w ''OPENAI_API_KEY'' = Some k" and "k \<noteq> []"
    and "openai_import w = Some e \<or> (openai_import w = None \<and> openai_client w k = Some e)"
  shows "transcribe_audio w audio_path = ([], Inr (take 500 (''transcription error: '' @ str_exn e)))"
  using assms
  by (auto simp: transcribe_audio_def truthy_def try_except_def bind_def ret_def call_import_def
      call_client_def Let_def)

text \<open>
  C6. When \<open>OPENAI_API_KEY\<close> is unset, \<open>transcribe_audio\<close> returns exactly the fixed
  placeholder string for every audio path and every state of the host, and makes no
  external call: no file is opened and the remote service is not contacted.
\<close>

theorem transcribe_audio_placeholder:
  "os_getenv w ''OPENAI_API_KEY'' = None \<Longrightarrow>
   transcribe_audio w audio_path =
     ([], Inr ''hello world this is a sample transcription for sign translation demo'')"
  using transcribe_audio_no_key[of w audio_path]
  by (simp add: truthy_def placeholder_text_def)

text \<open>C6, witness: the sample host, where no variable is set.\<close>

theorem transcribe_audio_placeholder_witness:
  "os_getenv demo_world ''OPENAI_API_KEY'' = None \<and>
   transcribe_audio demo_world ''/tmp/tmpq1w2/audio.wav'' =
     ([], Inr ''hello world this is a sample transcription for sign translation demo'')"
proof -
  have h: "os_getenv demo_world ''OPENAI_API_KEY'' = None" by (simp add: demo_world_def)
  from transcribe_audio_placeholder[OF h] h show ?thesis by simp
qed



text \<open>
  C5, as amended. When a credential is configured and importing the client library or
  constructing the client fails with an error, \<open>transcribe_audio\<close> returns the first 500
  characters of the string made of \<open>"transcription error: "\<close> and the failure detail: the
  prefix followed by at most 479 characters of the detail. No file is opened and no remote
  call is made.
\<close>

theorem transcribe_audio_setup_error:
  assumes "os_getenv w ''OPENAI_API_KEY'' = Some k" and "k \<noteq> []"
    and "openai_import w = Some e \<or> (openai_import w = None \<and> openai_client w k = Some e)"
  shows "transcribe_audio w audio_path =
           ([], Inr (take 500 (''transcription error: '' @ str_exn e))) \<and>
         snd (transcribe_audio w audio_path) =
           Inr (''transcription error: '' @ take 479 (str_exn e))"
proof -
  have "length ''transcription error: '' = 21" by simp
  then have "take 500 (''transcription error: '' @ str_exn e) =
        ''transcription error: '' @ take 479 (str_exn e)"
    by (simp only: take_append) simp
  then show ?thesis
    using transcribe_audio_setup_fails[OF assms, of audio_path] by simp
qed

text \<open>
  C5, witness: the client constructor rejects the key.
\<close>

theorem transcribe_audio_setup_error_witness:
  "os_getenv (demo_world\<lparr>os_getenv := [''OPENAI_API_KEY'' \<mapsto> ''sk-test''],
                        openai_client := (\<lambda>_. Some (Error ValueError ''invalid key''))\<rparr>)
     ''OPENAI_API_KEY'' = Some ''sk-test'' \<and>
   openai_client (demo_world\<lparr>os_getenv := [''OPENAI_API_KEY'' \<mapsto> ''sk-test''],
                        openai_client := (\<lambda>_. Some (Error ValueError ''invalid key''))\<rparr>)
     ''sk-test'' = Some (Error ValueError ''invalid key'') \<and>
   snd (transcribe_audio
         (demo_world\<lparr>os_getenv := [''OPENAI_API_KEY'' \<mapsto> ''sk-test''],
                     openai_client := (\<lambda>_. Some (Error ValueError ''invalid key''))\<rparr>)
         ''/tmp/tmpq1w2/audio.wav'')
     = Inr ''transcription error: invalid key''"
proof -
  let ?w = "demo_world\<lparr>os_getenv := [''OPENAI_API_KEY'' \<mapsto> ''sk-test''],
                        openai_client := (\<lambda>_. Some (Error ValueError ''invalid key''))\<rparr>"
  have k: "os_getenv ?w ''OPENAI_API_KEY'' = Some ''sk-test''" by simp
  have ne: "''sk-test'' \<noteq> []" by simp
  have c: "openai_import ?w = Some (Error ValueError ''invalid key'') \<or>
           (openai_import ?w = None \<and> openai_client ?w ''sk-test'' = Some (Error ValueError ''invalid key''))"
    by (simp add: demo_world_def)
  from transcribe_audio_setup_error[OF k ne c, of "''/tmp/tmpq1w2/audio.wav''"]
  show ?thesis by simp
qed

text \<open>
  C5, as stated, fails: the slice is applied to the whole formatted string, not to the
  detail. With a detail of 480 characters the result has 500 characters and is not the
  prefix followed by the detail truncated to 500 characters, which would have 501.
\<close>

theorem transcribe_audio_truncation_counterexample:
  "snd (transcribe_audio
         (demo_world\<lparr>os_getenv := [''OPENAI_API_KEY'' \<mapsto> ''sk-test''],
                     openai_client := (\<lambda>_. Some (Error ValueError (replicate 480 (CHR ''x''))))\<rparr>)
         ''/tmp/tmpq1w2/audio.wav'')
     \<noteq> Inr (''transcription error: '' @ take 500 (replicate 480 (CHR ''x'')))"
proof -
  let ?w = "demo_world\<lparr>os_getenv := [''OPENAI_API_KEY'' \<mapsto> ''sk-test''],
                     openai_client := (\<lambda>_. Some (Error ValueError (replicate 480 (CHR ''x''))))\<rparr>"
  define a where "a = take 500 (''transcription error: '' @ replicate 480 (CHR ''x''))"
  define b where "b = ''transcription error: '' @ take 500 (replicate 480 (CHR ''x''))"
  have la: "length a = 500" by (simp add: a_def)
  have lb: "length b = 501" by (simp add: b_def)
  have k: "os_getenv ?w ''OPENAI_API_KEY'' = Some ''sk-test''" by simp
  have ne: "''sk-test'' \<noteq> []" by simp
  have c: "openai_import ?w = Some (Error ValueError (replicate 480 (CHR ''x''))) \<or>
           (openai_import ?w = None \<and>
            openai_client ?w ''sk-test'' = Some (Error ValueError (replicate 480 (CHR ''x''))))"
    by (simp add: demo_world_def)
  have "snd (transcribe_audio ?w ''/tmp/tmpq1w2/audio.wav'') = Inr a"
    unfolding a_def transcribe_audio_setup_fails[OF k ne c] by (simp only: snd_conv exn.sel)
  moreover have "a \<noteq> b" using la lb by auto
  ultimately show ?thesis unfolding b_def[symmetric] by simp
qed

section \<open>Facts about the transcribe handler\<close>

lemma str_split_on_nonempty: "str_split_on sep s \<noteq> []"
  by (subst str_split_on.simps) (simp split: list.splits)

lemma last_str_split_on:
  "last (str_split_on sep s) = rev (takeWhile (\<lambda>c. c \<noteq> sep) (rev s))"
proof (induction sep s rule: str_split_on.induct)
  case (1 sep s)
  show ?case
  proof (cases "dropWhile (\<lambda>x. x \<noteq> sep) s")
    case Nil
    then have all: "\<forall>x \<in> set s. x \<noteq> sep" by simp
    have "str_split_on sep s = [s]"
      by (subst str_split_on.simps) (simp only: Nil list.case)
    then have l: "last (str_split_on sep s) = s" by simp
    have "takeWhile (\<lambda>c. c \<noteq> sep) (rev s) = rev s"
      using all by (simp add: takeWhile_eq_all_conv)
    then have "rev (takeWhile (\<lambda>c. c \<noteq> sep) (rev s)) = s"
      by (simp only: rev_rev_ident)
    with l show ?thesis by simp
  next
    case (Cons x rest)
    then have x: "x = sep" using hd_dropWhile[of "\<lambda>x. x \<noteq> sep" s] by auto
    have s: "s = takeWhile (\<lambda>x. x \<noteq> sep) s @ sep # rest"
      using Cons x takeWhile_dropWhile_id[of "\<lambda>x. x \<noteq> sep" s] by simp
    have "str_split_on sep s = takeWhile (\<lambda>x. x \<noteq> sep) s # str_split_on sep rest"
      by (subst str_split_on.simps) (simp only: Cons list.case)
    then have "last (str_split_on sep s) = last (str_split_on sep rest)"
      by (simp add: str_split_on_nonempty)
    also have "\<dots> = rev (takeWhile (\<lambda>c. c \<noteq> sep) (rev rest))"
      using "1.IH"[OF Cons] .
    also have "takeWhile (\<lambda>c. c \<noteq> sep) (rev rest)
        = takeWhile (\<lambda>c. c \<noteq> sep) (rev rest @ sep # rev (takeWhile (\<lambda>x. x \<noteq> sep) s))"
      by (simp add: takeWhile_tail)
    also have "rev rest @ sep # rev (takeWhile (\<lambda>x. x \<noteq> sep) s) = rev s"
    proof -
      have "rev rest @ sep # rev (takeWhile (\<lambda>x. x \<noteq> sep) s)
          = rev (takeWhile (\<lambda>x. x \<noteq> sep) s @ sep # rest)"
        by simp
      also have "\<dots> = rev s" by (rule arg_cong[OF s[symmetric]])
      finally show ?thesis .
    qed
    finally show ?thesis .
  qed
qed

lemma suffix_of_last_segment: "suffix_of file = str_lower (last_segment (upload_name file))"
  by (simp add: suffix_of_def last_segment_def last_str_split_on)

lemma transcribe_rejects:
  "suffix_of file \<notin> ALLOWED_EXTENSIONS \<Longrightarrow>
   transcribe w file = ([], HTTPException 400 ''Unsupported file type'')"
  by (simp add: transcribe_def Let_def)

lemma with_body_cases:
  "with_body w file td suffix =
     (case file_open_wb w (td @ ''/input.'' @ suffix) of
        Some e \<Rightarrow> ([OpenFile (td @ ''/input.'' @ suffix)], Inl (Unhandled e))
      | None \<Rightarrow>
         (case file_write w (td @ ''/input.'' @ suffix) (content file) of
            Some e \<Rightarrow>
              ([OpenFile (td @ ''/input.'' @ suffix), WriteFile (td @ ''/input.'' @ suffix)],
               Inl (Unhandled e))
          | None \<Rightarrow>
             (case snd (bind (extract_audio w (td @ ''/input.'' @ suffix) (td @ ''/audio.wav''))
                          (\<lambda>_. transcribe_audio w (td @ ''/audio.wav''))) of
                Inl e \<Rightarrow>
                  ([OpenFile (td @ ''/input.'' @ suffix), WriteFile (td @ ''/input.'' @ suffix)]
                     @ fst (bind (extract_audio w (td @ ''/input.'' @ suffix) (td @ ''/audio.wav''))
                              (\<lambda>_. transcribe_audio w (td @ ''/audio.wav''))),
                   Inl (HTTPException 500 (str_exn e)))
              | Inr text \<Rightarrow>
                  ([OpenFile (td @ ''/input.'' @ suffix), WriteFile (td @ ''/input.'' @ suffix)]
                     @ fst (bind (extract_audio w (td @ ''/input.'' @ suffix) (td @ ''/audio.wav''))
                              (\<lambda>_. transcribe_audio w (td @ ''/audio.wav''))),
                   Inr text))))"
  unfolding with_body_def Let_def
  by (simp split: option.splits prod.splits sum.splits)

lemma transcribe_accepted:
  assumes "suffix_of file \<in> ALLOWED_EXTENSIONS"
  shows "transcribe w file =
     (case tempdir_create w of
        Inl e \<Rightarrow> ([MakeTempDir], Unhandled e)
      | Inr td \<Rightarrow>
          (MakeTempDir # fst (with_body w file td (suffix_of file)) @ [RemoveTempDir td],
           case snd (with_body w file td (suffix_of file)) of
             Inl raised \<Rightarrow> raised
           | Inr text \<Rightarrow> JSONResponse \<lparr>body_text = text, body_words = words_array (tokenize text)\<rparr>))"
  using assms unfolding transcribe_def Let_def
  by (simp split: sum.splits prod.splits)

lemma with_body_not_400:
  "snd (with_body w file td suffix) \<noteq> Inl (HTTPException 400 detail)"
  unfolding with_body_cases by (simp split: option.splits sum.splits)

lemma transcribe_accepted_not_400:
  assumes "suffix_of file \<in> ALLOWED_EXTENSIONS"
  shows "snd (transcribe w file) \<noteq> HTTPException 400 detail"
    and "\<exists>t. fst (transcribe w file) = MakeTempDir # t"
proof -
  show "snd (transcribe w file) \<noteq> HTTPException 400 detail"
    unfolding transcribe_accepted[OF assms]
    using with_body_not_400[of w "file" _ "suffix_of file" detail]
    by (auto split: sum.splits)
  show "\<exists>t. fst (transcribe w file) = MakeTempDir # t"
    unfolding transcribe_accepted[OF assms] by (simp split: sum.splits)
qed

lemma enumerate_from_fst:
  "map fst (enumerate_from n xs) = map (\<lambda>k. n + int k) [0..<length xs]"
proof (induction xs arbitrary: n)
  case Nil
  then show ?case by simp
next
  case (Cons x xs)
  have "map (\<lambda>k. n + int k) [0..<length (x # xs)]
      = n # map (\<lambda>k. n + int k) (map Suc [0..<length xs])"
    by (simp add: upt_conv_Cons map_Suc_upt del: upt_Suc)
  also have "map (\<lambda>k. n + int k) (map Suc [0..<length xs])
      = map (\<lambda>k. (n + 1) + int k) [0..<length xs]"
    by simp
  finally show ?case using Cons.IH[of "n + 1"] by simp
qed

lemma enumerate_from_snd: "map snd (enumerate_from n xs) = xs"
  by (induction xs arbitrary: n) simp_all

lemma words_array_fields:
  "map entry_i (words_array ws) = map int [0..<length ws]"
  "map entry_w (words_array ws) = ws"
proof -
  have "map entry_i (words_array ws) = map fst (enumerate_from 0 ws)"
    by (simp add: words_array_def case_prod_beta)
  then show "map entry_i (words_array ws) = map int [0..<length ws]"
    by (simp add: enumerate_from_fst)
  have "map entry_w (words_array ws) = map snd (enumerate_from 0 ws)"
    by (simp add: words_array_def case_prod_beta)
  then show "map entry_w (words_array ws) = ws"
    by (simp add: enumerate_from_snd)
qed

lemma transcribe_response_body:
  assumes "snd (transcribe w file) = JSONResponse b"
  shows "body_words b = words_array (tokenize (body_text b))"
proof (cases "suffix_of file \<in> ALLOWED_EXTENSIONS")
  case False
  then show ?thesis using assms by (simp add: transcribe_rejects)
next
  case True
  show ?thesis
    using assms unfolding transcribe_accepted[OF True] with_body_cases
    by (auto split: sum.splits option.splits)
qed

section \<open>The transcribe handler on the sample host\<close>

lemma demo_suffix: "suffix_of demo_upload = ''wav''"
  by code_simp

lemma wav_allowed: "''wav'' \<in> ALLOWED_EXTENSIONS"
  by (simp add: ALLOWED_EXTENSIONS_def)

lemma demo_extract: "extract_audio demo_world inp out =
  ([RunProcess [''ffmpeg'', ''-version''],
    RunProcess [''ffmpeg'', ''-y'', ''-i'', inp, ''-vn'', ''-acodec'', ''pcm_s16le'',
                ''-ar'', ''16000'', ''-ac'', ''1'', out]], Inr ())"
  by (simp add: extract_audio_def has_ffmpeg_def call_run_def get_ffmpeg_executable_def
      demo_world_def bind_def ret_def raise_def Let_def)

lemma demo_tokens:
  "tokenize ''hello world this is a sample transcription for sign translation demo'' =
     [''hello'', ''world'', ''this'', ''is'', ''a'', ''sample'', ''transcription'', ''for'',
      ''sign'', ''translation'', ''demo'']"
  by code_simp


lemma demo_with_body:
  "with_body demo_world demo_upload ''/tmp/tmpq1w2'' ''wav'' =
     ([OpenFile ''/tmp/tmpq1w2/input.wav'', WriteFile ''/tmp/tmpq1w2/input.wav'',
       RunProcess [''ffmpeg'', ''-version''],
       RunProcess [''ffmpeg'', ''-y'', ''-i'', ''/tmp/tmpq1w2/input.wav'', ''-vn'', ''-acodec'',
                   ''pcm_s16le'', ''-ar'', ''16000'', ''-ac'', ''1'', ''/tmp/tmpq1w2/audio.wav'']],
      Inr ''hello world this is a sample transcription for sign translation demo'')"
proof -
  have k: "\<not> truthy (os_getenv demo_world ''OPENAI_API_KEY'')"
    by (simp add: demo_world_def truthy_def)
  have o: "file_open_wb demo_world p = None" and wr: "file_write demo_world p d = None" for p d
    by (simp_all add: demo_world_def)
  show ?thesis
    unfolding with_body_def Let_def
    by (simp add: o wr demo_extract transcribe_audio_no_key[OF k] bind_def placeholder_text_def)
qed

lemma demo_transcribe:
  "snd (transcribe demo_world demo_upload) =
     JSONResponse
       \<lparr>body_text = ''hello world this is a sample transcription for sign translation demo'',
        body_words = words_array
          [''hello'', ''world'', ''this'', ''is'', ''a'', ''sample'', ''transcription'', ''for'',
           ''sign'', ''translation'', ''demo'']\<rparr>"
proof -
  have a: "suffix_of demo_upload \<in> ALLOWED_EXTENSIONS"
    by (simp only: demo_suffix wav_allowed)
  have td: "tempdir_create demo_world = Inr ''/tmp/tmpq1w2''" by (simp add: demo_world_def)
  show ?thesis
    unfolding transcribe_accepted[OF a] td demo_suffix
    by (simp only: sum.case snd_conv demo_with_body demo_tokens)
qed

text \<open>
  C9. In every successful response, the \<open>i\<close> values of the \<open>words\<close> array are
  \<open>0, 1, \<dots>, n - 1\<close> in this order, where \<open>n\<close> is the number of tokens of the response's
  text, and the \<open>w\<close> values are these tokens in their order.
\<close>

theorem transcribe_words_dense:
  assumes "snd (transcribe w file) = JSONResponse b"
  shows "map entry_i (body_words b) = map int [0..<length (tokenize (body_text b))] \<and>
         map entry_w (body_words b) = tokenize (body_text b)"
  unfolding transcribe_response_body[OF assms] by (simp add: words_array_fields)

text \<open>
  C9, witness: the sample upload on the sample host, answered with the placeholder text and
  its eleven tokens.
\<close>

theorem transcribe_words_dense_witness:
  "snd (transcribe demo_world demo_upload) =
     JSONResponse
       \<lparr>body_text = ''hello world this is a sample transcription for sign translation demo'',
        body_words = words_array
          [''hello'', ''world'', ''this'', ''is'', ''a'', ''sample'', ''transcription'', ''for'',
           ''sign'', ''translation'', ''demo'']\<rparr> \<and>
   map entry_i (words_array
          [''hello'', ''world'', ''this'', ''is'', ''a'', ''sample'', ''transcription'', ''for'',
           ''sign'', ''translation'', ''demo'']) = [0, 1, 2, 3, 4, 5, 6, 7, 8, 9, 10] \<and>
   map entry_w (words_array
          [''hello'', ''world'', ''this'', ''is'', ''a'', ''sample'', ''transcription'', ''for'',
           ''sign'', ''translation'', ''demo'']) =
     [''hello'', ''world'', ''this'', ''is'', ''a'', ''sample'', ''transcription'', ''for'',
      ''sign'', ''translation'', ''demo'']"
proof -
  have up: "map int [0..<11] = [0, 1, 2, 3, 4, 5, 6, 7, 8, 9, 10]" by code_simp
  from transcribe_words_dense[OF demo_transcribe] show ?thesis
    by (simp add: demo_transcribe demo_tokens up)
qed

text \<open>
  C2, as amended. The handler takes the part of the file name after its last \<open>.\<close>, or
  the whole name when it contains no \<open>.\<close> (a missing or empty name counts as \<open>upload\<close>),
  in lower case. The upload is accepted, and the first external call is made, exactly when
  this string belongs to the accepted set; otherwise the handler answers 400
  \<open>Unsupported file type\<close> and makes no external call at all.
\<close>

theorem transcribe_validation:
  "(str_lower (last_segment (upload_name file)) \<in> ALLOWED_EXTENSIONS \<longrightarrow>
      snd (transcribe w file) \<noteq> HTTPException 400 ''Unsupported file type'' \<and>
      (\<exists>t. fst (transcribe w file) = MakeTempDir # t)) \<and>
   (str_lower (last_segment (upload_name file)) \<notin> ALLOWED_EXTENSIONS \<longrightarrow>
      transcribe w file = ([], HTTPException 400 ''Unsupported file type''))"
  using transcribe_accepted_not_400(1)[of "file" w "''Unsupported file type''"]
    transcribe_accepted_not_400(2)[of "file" w]
    transcribe_rejects[of "file" w]
  by (simp add: suffix_of_last_segment)

text \<open>
  C2, witnesses: \<open>sample.WAV\<close> is accepted, \<open>clip.txt\<close> is rejected without any external
  call.
\<close>

theorem transcribe_validation_witness:
  "str_lower (last_segment (upload_name \<lparr>filename = Some ''sample.WAV'', content = []\<rparr>))
     \<in> ALLOWED_EXTENSIONS \<and>
   snd (transcribe demo_world \<lparr>filename = Some ''sample.WAV'', content = []\<rparr>)
     \<noteq> HTTPException 400 ''Unsupported file type'' \<and>
   str_lower (last_segment (upload_name \<lparr>filename = Some ''clip.txt'', content = []\<rparr>))
     \<notin> ALLOWED_EXTENSIONS \<and>
   transcribe demo_world \<lparr>filename = Some ''clip.txt'', content = []\<rparr>
     = ([], HTTPException 400 ''Unsupported file type'')"
proof -
  have a: "str_lower (last_segment (upload_name \<lparr>filename = Some ''sample.WAV'', content = []\<rparr>))
      = ''wav''" by code_simp
  have b: "str_lower (last_segment (upload_name \<lparr>filename = Some ''clip.txt'', content = []\<rparr>))
      = ''txt''" by code_simp
  have nb: "''txt'' \<notin> ALLOWED_EXTENSIONS" by (simp add: ALLOWED_EXTENSIONS_def)
  from transcribe_validation[of "\<lparr>filename = Some ''sample.WAV'', content = []\<rparr>" demo_world]
    transcribe_validation[of "\<lparr>filename = Some ''clip.txt'', content = []\<rparr>" demo_world]
  show ?thesis unfolding a b using wav_allowed nb by blast
qed

text \<open>
  C2, as stated, fails: the name \<open>mp4\<close> contains no \<open>.\<close>, so it has no substring after a
  last \<open>.\<close>, and yet the handler accepts the upload and starts processing it.
\<close>

theorem transcribe_dotless_counterexample:
  "extension_after_last_dot ''mp4'' = None \<and>
   snd (transcribe demo_world \<lparr>filename = Some ''mp4'', content = []\<rparr>)
     \<noteq> HTTPException 400 ''Unsupported file type'' \<and>
   hd (fst (transcribe demo_world \<lparr>filename = Some ''mp4'', content = []\<rparr>)) = MakeTempDir"
proof -
  have e: "extension_after_last_dot ''mp4'' = None"
    by (simp add: extension_after_last_dot_def)
  have s: "suffix_of \<lparr>filename = Some ''mp4'', content = []\<rparr> = ''mp4''" by code_simp
  have a: "suffix_of \<lparr>filename = Some ''mp4'', content = []\<rparr> \<in> ALLOWED_EXTENSIONS"
    unfolding s by (simp add: ALLOWED_EXTENSIONS_def)
  from transcribe_accepted_not_400(1)[OF a, of demo_world "''Unsupported file type''"]
    transcribe_accepted_not_400(2)[OF a, of demo_world] e
  show ?thesis by auto
qed

text \<open>
  C1, as amended. For an upload that passes extension validation: an exception raised
  while allocating the temporary directory, opening the input file or writing the uploaded
  bytes is not caught by the handler and leaves it as it is; once the bytes are written,
  an exception raised by audio extraction or transcription is caught and raised again as a
  500 whose detail is the exception's message. In no case is the answer the 400 of the
  validation failure. Tokenization runs after the \<open>try\<close> block and raises nothing.
\<close>

theorem transcribe_failures:
  assumes "suffix_of file \<in> ALLOWED_EXTENSIONS"
  shows
    "(tempdir_create w = Inl e \<longrightarrow> snd (transcribe w file) = Unhandled e) \<and>
     (tempdir_create w = Inr td \<and>
      file_open_wb w (td @ ''/input.'' @ suffix_of file) = Some e \<longrightarrow>
        snd (transcribe w file) = Unhandled e) \<and>
     (tempdir_create w = Inr td \<and>
      file_open_wb w (td @ ''/input.'' @ suffix_of file) = None \<and>
      file_write w (td @ ''/input.'' @ suffix_of file) (content file) = Some e \<longrightarrow>
        snd (transcribe w file) = Unhandled e) \<and>
     (tempdir_create w = Inr td \<and>
      file_open_wb w (td @ ''/input.'' @ suffix_of file) = None \<and>
      file_write w (td @ ''/input.'' @ suffix_of file) (content file) = None \<and>
      snd (bind (extract_audio w (td @ ''/input.'' @ suffix_of file) (td @ ''/audio.wav''))
             (\<lambda>_. transcribe_audio w (td @ ''/audio.wav''))) = Inl e \<longrightarrow>
        snd (transcribe w file) = HTTPException 500 (str_exn e)) \<and>
     snd (transcribe w file) \<noteq> HTTPException 400 ''Unsupported file type''"
proof (intro conjI impI)
  show "snd (transcribe w file) = Unhandled e" if "tempdir_create w = Inl e"
    unfolding transcribe_accepted[OF assms] using that by simp
  show "snd (transcribe w file) = Unhandled e"
    if "tempdir_create w = Inr td \<and> file_open_wb w (td @ ''/input.'' @ suffix_of file) = Some e"
    unfolding transcribe_accepted[OF assms] with_body_cases using that by simp
  show "snd (transcribe w file) = Unhandled e"
    if "tempdir_create w = Inr td \<and>
      file_open_wb w (td @ ''/input.'' @ suffix_of file) = None \<and>
      file_write w (td @ ''/input.'' @ suffix_of file) (content file) = Some e"
    unfolding transcribe_accepted[OF assms] with_body_cases using that by simp
  show "snd (transcribe w file) = HTTPException 500 (str_exn e)"
    if "tempdir_create w = Inr td \<and>
      file_open_wb w (td @ ''/input.'' @ suffix_of file) = None \<and>
      file_write w (td @ ''/input.'' @ suffix_of file) (content file) = None \<and>
      snd (bind (extract_audio w (td @ ''/input.'' @ suffix_of file) (td @ ''/audio.wav''))
             (\<lambda>_. transcribe_audio w (td @ ''/audio.wav''))) = Inl e"
    unfolding transcribe_accepted[OF assms] with_body_cases using that by simp
  show "snd (transcribe w file) \<noteq> HTTPException 400 ''Unsupported file type''"
    using assms by (rule transcribe_accepted_not_400(1))
qed


text \<open>
  C1, witnesses on the sample upload: the temporary directory cannot be created; the input
  file cannot be opened; the bytes cannot be written; the tool is missing, so that audio
  extraction raises and the handler answers 500 with the message of that exception.
\<close>

theorem transcribe_failures_witness:
  "suffix_of demo_upload \<in> ALLOWED_EXTENSIONS \<and>
   snd (transcribe (demo_world\<lparr>tempdir_create := Inl (Error OSError ''No space left on device'')\<rparr>)
          demo_upload) = Unhandled (Error OSError ''No space left on device'') \<and>
   snd (transcribe (demo_world\<lparr>file_open_wb := (\<lambda>_. Some (Error PermissionError ''Permission denied''))\<rparr>)
          demo_upload) = Unhandled (Error PermissionError ''Permission denied'') \<and>
   snd (transcribe (demo_world\<lparr>file_write := (\<lambda>_ _. Some (Error OSError ''No space left on device''))\<rparr>)
          demo_upload) = Unhandled (Error OSError ''No space left on device'') \<and>
   snd (bind (extract_audio
                (demo_world\<lparr>subprocess_run :=
                   (\<lambda>_. LaunchError (Error FileNotFoundError ''No such file or directory''))\<rparr>)
                (''/tmp/tmpq1w2'' @ ''/input.'' @ suffix_of demo_upload)
                (''/tmp/tmpq1w2'' @ ''/audio.wav''))
          (\<lambda>_. transcribe_audio
                (demo_world\<lparr>subprocess_run :=
                   (\<lambda>_. LaunchError (Error FileNotFoundError ''No such file or directory''))\<rparr>)
                (''/tmp/tmpq1w2'' @ ''/audio.wav'')))
     = Inl (Error RuntimeError ffmpeg_not_found) \<and>
   snd (transcribe
          (demo_world\<lparr>subprocess_run :=
             (\<lambda>_. LaunchError (Error FileNotFoundError ''No such file or directory''))\<rparr>)
          demo_upload) = HTTPException 500 ffmpeg_not_found"
proof -
  let ?w1 = "demo_world\<lparr>tempdir_create := Inl (Error OSError ''No space left on device'')\<rparr>"
  let ?w2 = "demo_world\<lparr>file_open_wb := (\<lambda>_. Some (Error PermissionError ''Permission denied''))\<rparr>"
  let ?w3 = "demo_world\<lparr>file_write := (\<lambda>_ _. Some (Error OSError ''No space left on device''))\<rparr>"
  let ?w4 = "demo_world\<lparr>subprocess_run :=
             (\<lambda>_. LaunchError (Error FileNotFoundError ''No such file or directory''))\<rparr>"
  let ?td = "''/tmp/tmpq1w2''"
  have a: "suffix_of demo_upload \<in> ALLOWED_EXTENSIONS"
    by (simp only: demo_suffix wav_allowed)
  have h1: "tempdir_create ?w1 = Inl (Error OSError ''No space left on device'')" by simp
  have h2: "tempdir_create ?w2 = Inr ?td \<and>
      file_open_wb ?w2 (?td @ ''/input.'' @ suffix_of demo_upload)
        = Some (Error PermissionError ''Permission denied'')"
    by (simp add: demo_world_def)
  have h3: "tempdir_create ?w3 = Inr ?td \<and>
      file_open_wb ?w3 (?td @ ''/input.'' @ suffix_of demo_upload) = None \<and>
      file_write ?w3 (?td @ ''/input.'' @ suffix_of demo_upload) (content demo_upload)
        = Some (Error OSError ''No space left on device'')"
    by (simp add: demo_world_def)
  have x: "snd (bind (extract_audio ?w4 (?td @ ''/input.'' @ suffix_of demo_upload) (?td @ ''/audio.wav''))
             (\<lambda>_. transcribe_audio ?w4 (?td @ ''/audio.wav'')))
      = Inl (Error RuntimeError ffmpeg_not_found)"
    by (simp add: extract_audio_def has_ffmpeg_def call_run_def bind_def raise_def Let_def)
  have h4: "tempdir_create ?w4 = Inr ?td \<and>
      file_open_wb ?w4 (?td @ ''/input.'' @ suffix_of demo_upload) = None \<and>
      file_write ?w4 (?td @ ''/input.'' @ suffix_of demo_upload) (content demo_upload) = None \<and>
      snd (bind (extract_audio ?w4 (?td @ ''/input.'' @ suffix_of demo_upload) (?td @ ''/audio.wav''))
             (\<lambda>_. transcribe_audio ?w4 (?td @ ''/audio.wav'')))
        = Inl (Error RuntimeError ffmpeg_not_found)"
    using x by (simp add: demo_world_def)
  from transcribe_failures[OF a, of ?w1 "Error OSError ''No space left on device''"] h1
  have r1: "snd (transcribe ?w1 demo_upload) = Unhandled (Error OSError ''No space left on device'')"
    by blast
  from transcribe_failures[OF a, of ?w2 "Error PermissionError ''Permission denied''" ?td] h2
  have r2: "snd (transcribe ?w2 demo_upload) = Unhandled (Error PermissionError ''Permission denied'')"
    by blast
  from transcribe_failures[OF a, of ?w3 "Error OSError ''No space left on device''" ?td] h3
  have r3: "snd (transcribe ?w3 demo_upload) = Unhandled (Error OSError ''No space left on device'')"
    by blast
  from transcribe_failures[OF a, of ?w4 "Error RuntimeError ffmpeg_not_found" ?td] h4
  have r4: "snd (transcribe ?w4 demo_upload) = HTTPException 500 ffmpeg_not_found"
    by (simp only: exn.sel)
  show ?thesis using a r1 r2 r3 x r4 by (intro conjI)
qed

text \<open>
  C1, as stated, fails: when the temporary directory cannot be allocated, or when the
  uploaded bytes cannot be written, the exception leaves the handler uncaught; the answer
  is not a 500 raised by the handler with the exception's message as its detail.
\<close>

theorem transcribe_uncaught_counterexample:
  "suffix_of demo_upload \<in> ALLOWED_EXTENSIONS \<and>
   snd (transcribe (demo_world\<lparr>tempdir_create := Inl (Error OSError ''No space left on device'')\<rparr>)
          demo_upload) \<noteq> HTTPException 500 ''No space left on device'' \<and>
   snd (transcribe (demo_world\<lparr>file_write := (\<lambda>_ _. Some (Error OSError ''No space left on device''))\<rparr>)
          demo_upload) \<noteq> HTTPException 500 ''No space left on device''"
proof -
  have a: "suffix_of demo_upload \<in> ALLOWED_EXTENSIONS"
    by (simp only: demo_suffix wav_allowed)
  have "snd (transcribe (demo_world\<lparr>tempdir_create := Inl (Error OSError ''No space left on device'')\<rparr>)
          demo_upload) = Unhandled (Error OSError ''No space left on device'')"
    unfolding transcribe_accepted[OF a] by simp
  moreover have "snd (transcribe (demo_world\<lparr>file_write := (\<lambda>_ _. Some (Error OSError ''No space left on device''))\<rparr>)
          demo_upload) = Unhandled (Error OSError ''No space left on device'')"
    unfolding transcribe_accepted[OF a] with_body_cases by (simp add: demo_world_def)
  ultimately show ?thesis using a by simp
qed

end
